theory Spec2Isabelle
  imports Main
begin

section \<open>Enumerations\<close>

datatype Severity = INFO | WARNING | CRITICAL

datatype DeliveryType = IN_APP | EMAIL | SMS

datatype AlertStatus = ACTIVE | EXPIRED | ARCHIVED

datatype NotificationStatus = UNREAD | READ | SNOOZED

section \<open>Time\<close>

text \<open>
  A naive \<^verbatim>\<open>datetime\<close>. The calendar date is kept as its proleptic Gregorian ordinal
  (\<^verbatim>\<open>toordinal()\<close>, 1 for 0001-01-01 up to 3652059 for 9999-12-31): Python orders
  dates, subtracts them and adds \<^verbatim>\<open>timedelta(days=1)\<close> through that number. The time
  of day keeps the four fields \<^verbatim>\<open>replace\<close> addresses.
\<close>

record datetime =
  day_ordinal :: nat
  hour :: nat
  minute :: nat
  second :: nat
  microsecond :: nat

text \<open>
  A \<^verbatim>\<open>timedelta\<close> is normalised to one (days, seconds, microseconds) triple, and its
  order is the order of the total number of microseconds, which is what the model keeps.
\<close>

type_synonym timedelta = int

definition hours :: "int \<Rightarrow> timedelta" where
  "hours n = n * 3600000000"

definition total_microseconds :: "datetime \<Rightarrow> int" where
  "total_microseconds d =
     (((int (day_ordinal d) * 24 + int (hour d)) * 60 + int (minute d)) * 60 + int (second d))
       * 1000000 + int (microsecond d)"

text \<open>\<^verbatim>\<open>a < b\<close> and \<^verbatim>\<open>a - b\<close> on naive datetimes.\<close>

definition dt_less :: "datetime \<Rightarrow> datetime \<Rightarrow> bool" where
  "dt_less a b = (total_microseconds a < total_microseconds b)"

definition dt_sub :: "datetime \<Rightarrow> datetime \<Rightarrow> timedelta" where
  "dt_sub a b = total_microseconds a - total_microseconds b"

definition valid_datetime :: "datetime \<Rightarrow> bool" where
  "valid_datetime d =
     (1 \<le> day_ordinal d \<and> day_ordinal d \<le> 3652059 \<and> hour d < 24 \<and> minute d < 60
      \<and> second d < 60 \<and> microsecond d < 1000000)"

datatype error = OverflowError

text \<open>\<^verbatim>\<open>d + timedelta(days=1)\<close>: raises past 9999-12-31.\<close>

definition add_one_day :: "datetime \<Rightarrow> error + datetime" where
  "add_one_day d =
     (if day_ordinal d + 1 > 3652059 then Inl OverflowError
      else Inr (d\<lparr>day_ordinal := day_ordinal d + 1\<rparr>))"

text \<open>
  Every call of \<^verbatim>\<open>datetime.now()\<close> reads the wall clock anew. The clock is the sequence
  of its readings; a function that reads it takes the number of readings made so far and
  returns the number afterwards.
\<close>

type_synonym clock = "nat \<Rightarrow> datetime"

section \<open>Data model\<close>

record User =
  id_user :: string
  name_user :: string
  email :: string
  team_id :: string

record Team =
  id_team :: string
  name_team :: string
  member_ids :: "string set"

datatype VisibilityConfig =
    OrganizationVisibility
  | TeamVisibility "string set"
  | UserVisibility "string set"

record Alert =
  id_alert :: string
  title :: string
  message :: string
  severity :: Severity
  delivery_type :: DeliveryType
  created_by :: string
  visibility_config :: VisibilityConfig
  start_time :: datetime
  expiry_time :: "datetime option"
  reminder_frequency :: timedelta
  status_alert :: AlertStatus
  reminders_enabled :: bool

record UserAlertState =
  user_id :: string
  alert_id :: string
  status :: NotificationStatus
  last_reminder_sent :: "datetime option"
  snoozed_until :: "datetime option"
  read_at :: "datetime option"

section \<open>Alert.is\_active\<close>

text \<open>The one reading of the clock made on entry is the argument \<open>now\<close>.\<close>

definition is_active :: "datetime \<Rightarrow> Alert \<Rightarrow> bool" where
  "is_active now a =
     (if status_alert a \<noteq> ACTIVE then False
      else if dt_less now (start_time a) then False
      else (case expiry_time a of
              Some e \<Rightarrow> if dt_less e now then False else True
            | None \<Rightarrow> True))"

section \<open>UserAlertState\<close>

text \<open>
  The part of \<^verbatim>\<open>should_receive_reminder\<close> after the snooze block: the read test, the
  first-reminder test and the throttle, which reads the clock only when a reminder was
  sent before.
\<close>

definition reminder_due ::
  "clock \<Rightarrow> nat \<Rightarrow> UserAlertState \<Rightarrow> Alert \<Rightarrow> bool \<times> UserAlertState \<times> nat" where
  "reminder_due clk t s a =
     (if status s = READ then (False, s, t)
      else (case last_reminder_sent s of
              None \<Rightarrow> (True, s, t)
            | Some l \<Rightarrow> (reminder_frequency a \<le> dt_sub (clk t) l, s, Suc t)))"

text \<open>
  \<^verbatim>\<open>should_receive_reminder\<close> returns its answer, the state as the call leaves it (the
  snooze block mutates it) and the number of clock readings. \<^verbatim>\<open>and\<close> short-circuits:
  with \<^verbatim>\<open>snoozed_until\<close> unset the clock is not read.
\<close>

definition should_receive_reminder ::
  "clock \<Rightarrow> nat \<Rightarrow> UserAlertState \<Rightarrow> Alert \<Rightarrow> bool \<times> UserAlertState \<times> nat" where
  "should_receive_reminder clk t s a =
     (if status s = SNOOZED then
        (case snoozed_until s of
           None \<Rightarrow> (False, s, t)
         | Some u \<Rightarrow>
             if dt_less u (clk t)
             then reminder_due clk (Suc t) (s\<lparr>status := UNREAD, snoozed_until := None\<rparr>) a
             else (False, s, Suc t))
      else reminder_due clk t s a)"

definition mark_read :: "datetime \<Rightarrow> UserAlertState \<Rightarrow> UserAlertState" where
  "mark_read now s = s\<lparr>status := READ, read_at := Some now\<rparr>"

definition snooze_until_tomorrow :: "datetime \<Rightarrow> UserAlertState \<Rightarrow> error + UserAlertState" where
  "snooze_until_tomorrow now s =
     (case add_one_day now of
        Inl e \<Rightarrow> Inl e
      | Inr tomorrow \<Rightarrow>
          Inr (s\<lparr>snoozed_until := Some (tomorrow\<lparr>hour := 0, minute := 0, second := 0\<rparr>),
                 status := SNOOZED\<rparr>))"

section \<open>Visibility\<close>

record UserRepository =
  users :: "string \<rightharpoonup> User"
  teams :: "string \<rightharpoonup> Team"

definition get_team :: "UserRepository \<Rightarrow> string \<Rightarrow> Team option" where
  "get_team repo tid = teams repo tid"

definition get_all_user_ids :: "UserRepository \<Rightarrow> string set" where
  "get_all_user_ids repo = dom (users repo)"

text \<open>
  Python does not fix the order in which a \<^verbatim>\<open>set\<close> is iterated. Every loop over a set
  takes the order as a parameter \<open>order\<close>: \<open>order S\<close> lists \<open>S\<close> as the loop visits it.
\<close>

type_synonym iteration = "string set \<Rightarrow> string list"

fun get_target_users :: "iteration \<Rightarrow> UserRepository \<Rightarrow> VisibilityConfig \<Rightarrow> string set" where
  "get_target_users order repo OrganizationVisibility = get_all_user_ids repo"
| "get_target_users order repo (TeamVisibility team_ids) =
     fold (\<lambda>tid target_users.
             case get_team repo tid of
               Some team \<Rightarrow> target_users \<union> member_ids team
             | None \<Rightarrow> target_users)
          (order team_ids) {}"
| "get_target_users order repo (UserVisibility user_ids) = user_ids"

section \<open>Delivery\<close>

text \<open>
  \<^verbatim>\<open>NotificationDelivery\<close> registers a channel for \<^verbatim>\<open>IN_APP\<close> and \<^verbatim>\<open>EMAIL\<close> only; both
  channels print and return \<^verbatim>\<open>True\<close>. Without a channel \<^verbatim>\<open>deliver\<close> returns \<^verbatim>\<open>False\<close>.
\<close>

definition deliver :: "Alert \<Rightarrow> string \<Rightarrow> bool" where
  "deliver a uid = (case delivery_type a of IN_APP \<Rightarrow> True | EMAIL \<Rightarrow> True | SMS \<Rightarrow> False)"

section \<open>UserAlertStateManager\<close>

type_synonym state_store = "string \<rightharpoonup> (string \<rightharpoonup> UserAlertState)"

text \<open>\<^verbatim>\<open>user_states[u][a] = s\<close>, after \<^verbatim>\<open>user_states[u] = {}\<close> when \<open>u\<close> has no entry.\<close>

definition store_at :: "state_store \<Rightarrow> string \<Rightarrow> string \<Rightarrow> UserAlertState \<Rightarrow> state_store" where
  "store_at us u a s =
     us(u \<mapsto> (case us u of None \<Rightarrow> Map.empty | Some d \<Rightarrow> d)(a \<mapsto> s))"

text \<open>The record held for a pair, if any (used to state properties; the source reads
  the nested dictionary directly).\<close>

definition lookup_state :: "state_store \<Rightarrow> string \<Rightarrow> string \<Rightarrow> UserAlertState option" where
  "lookup_state us u a = (case us u of None \<Rightarrow> None | Some d \<Rightarrow> d a)"

definition new_state :: "string \<Rightarrow> string \<Rightarrow> UserAlertState" where
  "new_state u a =
     \<lparr>user_id = u, alert_id = a, status = UNREAD, last_reminder_sent = None,
      snoozed_until = None, read_at = None\<rparr>"

definition get_state :: "state_store \<Rightarrow> string \<Rightarrow> string \<Rightarrow> UserAlertState \<times> state_store" where
  "get_state us u a =
     (let us1 = (case us u of None \<Rightarrow> us(u \<mapsto> Map.empty) | Some _ \<Rightarrow> us);
          d = (case us1 u of None \<Rightarrow> Map.empty | Some d \<Rightarrow> d)
      in case d a of
           None \<Rightarrow> (new_state u a, us1(u \<mapsto> d(a \<mapsto> new_state u a)))
         | Some s \<Rightarrow> (s, us1))"

definition update_state :: "state_store \<Rightarrow> UserAlertState \<Rightarrow> state_store" where
  "update_state us s = store_at us (user_id s) (alert_id s) s"

text \<open>
  Every record is created by \<^verbatim>\<open>get_state\<close> under its own two ids and stored by
  \<^verbatim>\<open>update_state\<close> under them, so in a store built by this program no record is held
  under two keys.
\<close>

definition store_wf :: "state_store \<Rightarrow> bool" where
  "store_wf us =
     (\<forall>u a s. lookup_state us u a = Some s \<longrightarrow> user_id s = u \<and> alert_id s = a)"

section \<open>ReminderScheduler\<close>

text \<open>
  The state a sweep works on: the repository and the alerts it reads, the state store it
  writes, the number of clock readings made so far, and the list of
  \<^verbatim>\<open>delivery.deliver(alert, user_id)\<close> calls as (alert id, user id), oldest first.
\<close>

record AlertingSystem =
  user_repository :: UserRepository
  alerts :: "(string \<times> Alert) list"
  user_states :: state_store
  clock_reads :: nat
  deliver_calls :: "(string \<times> string) list"

text \<open>\<^verbatim>\<open>[alert for alert in self.alerts.values() if alert.is_active()]\<close>: one reading of
  the clock for each alert.\<close>

fun get_active_alerts :: "clock \<Rightarrow> nat \<Rightarrow> Alert list \<Rightarrow> Alert list \<times> nat" where
  "get_active_alerts clk t [] = ([], t)"
| "get_active_alerts clk t (a # as) =
     (let (rest, t') = get_active_alerts clk (Suc t) as
      in (if is_active (clk t) a then a # rest else rest, t'))"

text \<open>
  The body of the loop over the target users. \<^verbatim>\<open>get_state\<close> returns the object the
  dictionary holds, so what \<^verbatim>\<open>should_receive_reminder\<close> and the assignment of
  \<^verbatim>\<open>last_reminder_sent\<close> do to it is written back where it is held.
\<close>

definition remind_user :: "clock \<Rightarrow> Alert \<Rightarrow> string \<Rightarrow> AlertingSystem \<Rightarrow> AlertingSystem" where
  "remind_user clk a uid sys =
     (let (user_state, us1) = get_state (user_states sys) uid (id_alert a);
          (due, user_state', t) = should_receive_reminder clk (clock_reads sys) user_state a;
          us2 = store_at us1 uid (id_alert a) user_state'
      in if due then
           (if deliver a uid then
              (let user_state'' = user_state'\<lparr>last_reminder_sent := Some (clk t)\<rparr>
               in sys\<lparr>user_states :=
                        update_state (store_at us2 uid (id_alert a) user_state'') user_state'',
                      clock_reads := Suc t,
                      deliver_calls := deliver_calls sys @ [(id_alert a, uid)]\<rparr>)
            else sys\<lparr>user_states := us2, clock_reads := t,
                     deliver_calls := deliver_calls sys @ [(id_alert a, uid)]\<rparr>)
         else sys\<lparr>user_states := us2, clock_reads := t\<rparr>)"

fun remind_users :: "clock \<Rightarrow> Alert \<Rightarrow> string list \<Rightarrow> AlertingSystem \<Rightarrow> AlertingSystem" where
  "remind_users clk a [] sys = sys"
| "remind_users clk a (uid # uids) sys = remind_users clk a uids (remind_user clk a uid sys)"

fun remind_alerts :: "iteration \<Rightarrow> clock \<Rightarrow> Alert list \<Rightarrow> AlertingSystem \<Rightarrow> AlertingSystem" where
  "remind_alerts order clk [] sys = sys"
| "remind_alerts order clk (a # as) sys =
     remind_alerts order clk as
       (if \<not> reminders_enabled a then sys
        else remind_users clk a
               (order (get_target_users order (user_repository sys) (visibility_config a))) sys)"

definition process_reminders :: "iteration \<Rightarrow> clock \<Rightarrow> AlertingSystem \<Rightarrow> AlertingSystem" where
  "process_reminders order clk sys =
     (let (active_alerts, t) = get_active_alerts clk (clock_reads sys) (map snd (alerts sys))
      in remind_alerts order clk active_alerts (sys\<lparr>clock_reads := t\<rparr>))"

section \<open>Concrete inputs\<close>

text \<open>The users and teams \<^verbatim>\<open>UserRepository.__init__\<close> installs.\<close>

definition init_user_repository :: UserRepository where
  "init_user_repository =
     \<lparr>users = [''user1'' \<mapsto> \<lparr>id_user = ''user1'', name_user = ''Admin User'',
                               email = ''admin@company.com'', team_id = ''team1''\<rparr>,
               ''user2'' \<mapsto> \<lparr>id_user = ''user2'', name_user = ''Engineering User'',
                               email = ''eng@company.com'', team_id = ''team1''\<rparr>,
               ''user3'' \<mapsto> \<lparr>id_user = ''user3'', name_user = ''Marketing User'',
                               email = ''marketing@company.com'', team_id = ''team2''\<rparr>],
      teams = [''team1'' \<mapsto> \<lparr>id_team = ''team1'', name_team = ''Engineering'',
                               member_ids = {''user1'', ''user2''}\<rparr>,
               ''team2'' \<mapsto> \<lparr>id_team = ''team2'', name_team = ''Marketing'',
                               member_ids = {''user3''}\<rparr>]\<rparr>"

text \<open>An iteration order: the members of the set in the order of a given list.\<close>

definition listed :: "string list \<Rightarrow> iteration" where
  "listed xs S = filter (\<lambda>x. x \<in> S) xs"

text \<open>2024-01-01 10:30:15.123456, and 09:00 on the next day.\<close>

definition t0 :: datetime where
  "t0 = \<lparr>day_ordinal = 738886, hour = 10, minute = 30, second = 15, microsecond = 123456\<rparr>"

definition t1 :: datetime where
  "t1 = \<lparr>day_ordinal = 738887, hour = 9, minute = 0, second = 0, microsecond = 0\<rparr>"

text \<open>An organization-wide alert as \<^verbatim>\<open>AlertingSystem.create_alert\<close> builds it, with the
  default reminder frequency of two hours.\<close>

definition alert1 :: Alert where
  "alert1 =
     \<lparr>id_alert = ''1'', title = ''Outage'', message = ''Database down'', severity = CRITICAL,
      delivery_type = IN_APP, created_by = ''user1'',
      visibility_config = OrganizationVisibility, start_time = t0, expiry_time = None,
      reminder_frequency = hours 2, status_alert = ACTIVE, reminders_enabled = True\<rparr>"

text \<open>The state of user1 for that alert after a snooze at \<open>t0\<close>.\<close>

definition snoozed1 :: UserAlertState where
  "snoozed1 =
     \<lparr>user_id = ''user1'', alert_id = ''1'', status = SNOOZED, last_reminder_sent = None,
      snoozed_until = Some \<lparr>day_ordinal = 738887, hour = 0, minute = 0, second = 0,
                             microsecond = 123456\<rparr>,
      read_at = None\<rparr>"

text \<open>What \<^verbatim>\<open>AlertingSystem.__init__\<close> builds: the repository, no alert, no state.\<close>

definition init_system :: AlertingSystem where
  "init_system =
     \<lparr>user_repository = init_user_repository, alerts = [], user_states = Map.empty,
      clock_reads = 0, deliver_calls = []\<rparr>"

text \<open>Variants of the alert: archived under id 2; delivered by SMS, for which no
  channel is registered; with a reminder frequency of \<^verbatim>\<open>timedelta(0)\<close>.\<close>

definition archived2 :: Alert where
  "archived2 = alert1\<lparr>id_alert := ''2'', status_alert := ARCHIVED\<rparr>"

definition sms1 :: Alert where
  "sms1 = alert1\<lparr>delivery_type := SMS\<rparr>"

definition every_sweep :: Alert where
  "every_sweep = alert1\<lparr>reminder_frequency := 0\<rparr>"

definition two_alerts :: AlertingSystem where
  "two_alerts = init_system\<lparr>alerts := [(''1'', alert1), (''2'', archived2)]\<rparr>"

text \<open>The state of user1 after a reminder sent at \<open>t0\<close>, and after mark-read at \<open>t0\<close>
  followed by a snooze at \<open>t0\<close>.\<close>

definition reminded1 :: UserAlertState where
  "reminded1 = (new_state ''user1'' ''1'')\<lparr>last_reminder_sent := Some t0\<rparr>"

definition read_then_snoozed :: UserAlertState where
  "read_then_snoozed = snoozed1\<lparr>read_at := Some t0\<rparr>"

text \<open>The system holding one record for user1 and alert 1: snoozed at \<open>t0\<close>, or
  reminded at \<open>t0\<close>. A clock that reads \<open>t1\<close> first and \<open>t0\<close> from then on.\<close>

definition snoozed_system :: AlertingSystem where
  "snoozed_system = init_system\<lparr>user_states := store_at Map.empty ''user1'' ''1'' snoozed1\<rparr>"

definition reminded_system :: AlertingSystem where
  "reminded_system = init_system\<lparr>user_states := store_at Map.empty ''user1'' ''1'' reminded1\<rparr>"

definition clock_set_back :: clock where
  "clock_set_back n = (if n = 0 then t1 else t0)"

section \<open>The state store\<close>

lemma lookup_store_at:
  "lookup_state (store_at us u a s) u' a' =
     (if u' = u \<and> a' = a then Some s else lookup_state us u' a')"
  by (simp add: lookup_state_def store_at_def split: option.splits)

lemma fst_get_state:
  "fst (get_state us u a) = (case lookup_state us u a of None \<Rightarrow> new_state u a | Some s \<Rightarrow> s)"
  by (simp add: get_state_def lookup_state_def Let_def split: option.splits)

lemma lookup_get_state:
  "lookup_state (snd (get_state us u a)) u' a' =
     (if u' = u \<and> a' = a then Some (fst (get_state us u a)) else lookup_state us u' a')"
  by (simp add: get_state_def lookup_state_def Let_def split: option.splits)

lemma get_state_present:
  "lookup_state us u a = Some s \<Longrightarrow> get_state us u a = (s, us)"
  by (simp add: get_state_def lookup_state_def Let_def split: option.splits)

text \<open>
  C10. The first \<^verbatim>\<open>get_state\<close> for a pair creates a record with status unread and the
  three timestamps unset, and holds it; a call for a pair that has a record returns that
  record and leaves the whole store as it was, so a second call returns what the first
  did; no call touches the record of another pair.
\<close>

theorem get_state_idempotent:
  "(lookup_state us u a = None \<longrightarrow>
      fst (get_state us u a) =
        \<lparr>user_id = u, alert_id = a, status = UNREAD, last_reminder_sent = None,
         snoozed_until = None, read_at = None\<rparr>)
   \<and> lookup_state (snd (get_state us u a)) u a = Some (fst (get_state us u a))
   \<and> (\<forall>s. lookup_state us u a = Some s \<longrightarrow> get_state us u a = (s, us))
   \<and> get_state (snd (get_state us u a)) u a = (fst (get_state us u a), snd (get_state us u a))
   \<and> (\<forall>u' a'. (u', a') \<noteq> (u, a) \<longrightarrow>
         lookup_state (snd (get_state us u a)) u' a' = lookup_state us u' a')"
proof -
  have held: "lookup_state (snd (get_state us u a)) u a = Some (fst (get_state us u a))"
    by (simp add: lookup_get_state)
  have again:
    "get_state (snd (get_state us u a)) u a = (fst (get_state us u a), snd (get_state us u a))"
    using held by (rule get_state_present)
  show ?thesis
    using held again
    by (auto simp: fst_get_state new_state_def lookup_get_state get_state_present)
qed

text \<open>
  C10, at concrete inputs: on the empty store the call creates the unread record; on a
  store that holds a record already marked read the call returns that record.
\<close>

theorem get_state_idempotent_witness:
  "lookup_state Map.empty ''user1'' ''1'' = None
   \<and> fst (get_state Map.empty ''user1'' ''1'') = new_state ''user1'' ''1''
   \<and> lookup_state (store_at Map.empty ''user1'' ''1'' (mark_read t0 (new_state ''user1'' ''1'')))
        ''user1'' ''1'' = Some (mark_read t0 (new_state ''user1'' ''1''))
   \<and> fst (get_state (store_at Map.empty ''user1'' ''1'' (mark_read t0 (new_state ''user1'' ''1'')))
        ''user1'' ''1'') = mark_read t0 (new_state ''user1'' ''1'')"
  using get_state_idempotent [of Map.empty "''user1''" "''1''"]
    get_state_idempotent
      [of "store_at Map.empty ''user1'' ''1'' (mark_read t0 (new_state ''user1'' ''1''))"
          "''user1''" "''1''"]
  by (simp add: lookup_state_def new_state_def store_at_def)

section \<open>Audience resolution\<close>

lemma fold_team_union:
  "fold (\<lambda>tid target_users.
           case get_team repo tid of
             Some team \<Rightarrow> target_users \<union> member_ids team
           | None \<Rightarrow> target_users) ts acc
   = acc \<union> (\<Union>t\<in>set ts. case get_team repo t of None \<Rightarrow> {} | Some team \<Rightarrow> member_ids team)"
  by (induction ts arbitrary: acc) (auto split: option.splits)

text \<open>
  C8. For a team rule naming the set \<open>T\<close>, whatever the order in which the loop visits
  \<open>T\<close>, the resolved audience is the union over the teams of \<open>T\<close> of the repository's
  member sets, a team id the repository does not know adding nothing. The function has
  no raising path.
\<close>

theorem team_visibility_union:
  "set (iter T) = T \<Longrightarrow>
   get_target_users iter repo (TeamVisibility T) =
     (\<Union>t\<in>T. case teams repo t of None \<Rightarrow> {} | Some team \<Rightarrow> member_ids team)"
proof -
  assume visits: "set (iter T) = T"
  have "get_target_users iter repo (TeamVisibility T) =
          (\<Union>t\<in>set (iter T). case get_team repo t of None \<Rightarrow> {} | Some team \<Rightarrow> member_ids team)"
    by (simp add: fold_team_union)
  then show ?thesis
    by (simp add: visits get_team_def)
qed

text \<open>
  C8, at a concrete input: team1 and the unknown team9 resolve, on the repository of the
  source, to the two members of team1.
\<close>

theorem team_visibility_union_witness:
  "set (listed [''team9'', ''team2'', ''team1''] {''team1'', ''team9''}) = {''team1'', ''team9''}
   \<and> get_target_users (listed [''team9'', ''team2'', ''team1'']) init_user_repository
         (TeamVisibility {''team1'', ''team9''}) = {''user1'', ''user2''}"
  using team_visibility_union
    [of "listed [''team9'', ''team2'', ''team1'']" "{''team1'', ''team9''}" init_user_repository]
  by (auto simp: listed_def init_user_repository_def)

section \<open>The notification state machine\<close>

lemma snooze_sets:
  "day_ordinal now < 3652059 \<Longrightarrow>
   snooze_until_tomorrow now s =
     Inr (s\<lparr>snoozed_until := Some \<lparr>day_ordinal = day_ordinal now + 1, hour = 0, minute = 0,
                                    second = 0, microsecond = microsecond now\<rparr>,
            status := SNOOZED\<rparr>)"
  by (simp add: snooze_until_tomorrow_def add_one_day_def)

text \<open>
  C7. A snooze at 2024-01-01 10:30:15.123456 sets status snoozed and snoozed-until to
  2024-01-02 00:00:00.123456: \<^verbatim>\<open>replace(hour=0, minute=0, second=0)\<close> leaves the
  microsecond of the clock reading in place, so the value is not the start of the next
  day.
\<close>

theorem snooze_keeps_microsecond:
  "snooze_until_tomorrow t0 (new_state ''user1'' ''1'') =
     Inr \<lparr>user_id = ''user1'', alert_id = ''1'', status = SNOOZED, last_reminder_sent = None,
          snoozed_until = Some \<lparr>day_ordinal = 738887, hour = 0, minute = 0, second = 0,
                                 microsecond = 123456\<rparr>,
          read_at = None\<rparr>"
  by (simp add: snooze_until_tomorrow_def add_one_day_def t0_def new_state_def)

text \<open>
  C3. On a snoozed state whose snoozed-until lies before the clock reading, the check
  gives what the check gives on the state already moved to unread with snoozed-until
  cleared: the call leaves the state so, and answers by the first-reminder and throttle
  tests of that same call. On a snoozed state whose snoozed-until the reading has not
  passed, the check answers false and leaves the state as it was.
\<close>

theorem lazy_snooze_expiry:
  "status s = SNOOZED \<Longrightarrow> snoozed_until s = Some u \<Longrightarrow>
   (dt_less u (clk t) \<longrightarrow>
      should_receive_reminder clk t s a =
        should_receive_reminder clk (Suc t) (s\<lparr>status := UNREAD, snoozed_until := None\<rparr>) a
      \<and> fst (snd (should_receive_reminder clk t s a)) =
          s\<lparr>status := UNREAD, snoozed_until := None\<rparr>
      \<and> fst (should_receive_reminder clk t s a) =
          (case last_reminder_sent s of
             None \<Rightarrow> True
           | Some l \<Rightarrow> reminder_frequency a \<le> dt_sub (clk (Suc t)) l))
   \<and> (\<not> dt_less u (clk t) \<longrightarrow> should_receive_reminder clk t s a = (False, s, Suc t))"
  by (simp add: should_receive_reminder_def reminder_due_def split: option.splits)

text \<open>
  C3, at concrete inputs: the state snoozed at \<open>t0\<close> is checked at 09:00 the next day
  (expired: eligible at once, state unread) and at \<open>t0\<close> itself (not expired: not
  eligible, state kept).
\<close>

theorem lazy_snooze_expiry_witness:
  "status snoozed1 = SNOOZED
   \<and> dt_less \<lparr>day_ordinal = 738887, hour = 0, minute = 0, second = 0, microsecond = 123456\<rparr> t1
   \<and> should_receive_reminder (\<lambda>n. t1) 0 snoozed1 alert1 = (True, new_state ''user1'' ''1'', 1)
   \<and> \<not> dt_less \<lparr>day_ordinal = 738887, hour = 0, minute = 0, second = 0, microsecond = 123456\<rparr> t0
   \<and> should_receive_reminder (\<lambda>n. t0) 0 snoozed1 alert1 = (False, snoozed1, 1)"
  using lazy_snooze_expiry
      [of snoozed1 "\<lparr>day_ordinal = 738887, hour = 0, minute = 0, second = 0, microsecond = 123456\<rparr>"
          "\<lambda>n. t1" 0 alert1]
    lazy_snooze_expiry
      [of snoozed1 "\<lparr>day_ordinal = 738887, hour = 0, minute = 0, second = 0, microsecond = 123456\<rparr>"
          "\<lambda>n. t0" 0 alert1]
  by (simp add: snoozed1_def t0_def t1_def dt_less_def total_microseconds_def new_state_def
      should_receive_reminder_def reminder_due_def)

text \<open>
  C9, as stated, fails: on a state with status snoozed and snoozed-until unset the check
  returns false and leaves the state as it is; nothing is raised.
\<close>

theorem snoozed_without_until_returns_false:
  "should_receive_reminder (\<lambda>n. t0) 0 ((new_state ''user1'' ''1'')\<lparr>status := SNOOZED\<rparr>) alert1
     = (False, (new_state ''user1'' ''1'')\<lparr>status := SNOOZED\<rparr>, 0)"
  by (simp add: should_receive_reminder_def new_state_def)

text \<open>
  C9, amended. Evaluating reminder eligibility on a state with status snoozed and
  snoozed-until unset is tolerated: the check answers not eligible, leaves the state
  unchanged and does not read the clock.
\<close>

theorem snoozed_without_until_tolerated:
  "status s = SNOOZED \<Longrightarrow> snoozed_until s = None \<Longrightarrow>
   should_receive_reminder clk t s a = (False, s, t)"
  by (simp add: should_receive_reminder_def)

text \<open>C9, amended, at a concrete input.\<close>

theorem snoozed_without_until_tolerated_witness:
  "status ((new_state ''user2'' ''1'')\<lparr>status := SNOOZED\<rparr>) = SNOOZED
   \<and> snoozed_until ((new_state ''user2'' ''1'')\<lparr>status := SNOOZED\<rparr>) = None
   \<and> should_receive_reminder (\<lambda>n. t1) 3 ((new_state ''user2'' ''1'')\<lparr>status := SNOOZED\<rparr>) alert1
       = (False, (new_state ''user2'' ''1'')\<lparr>status := SNOOZED\<rparr>, 3)"
  using snoozed_without_until_tolerated
    [of "(new_state ''user2'' ''1'')\<lparr>status := SNOOZED\<rparr>" "\<lambda>n. t1" 3 alert1]
  by (simp add: new_state_def)

lemma snooze_after_now:
  assumes "valid_datetime now" and "snooze_until_tomorrow now s = Inr s'"
  shows "\<exists>u. snoozed_until s' = Some u \<and> dt_less now u \<and> status s' = SNOOZED"
proof -
  have "int (hour now) \<le> 23" "int (minute now) \<le> 59" "int (second now) \<le> 59"
    using assms(1) by (simp_all add: valid_datetime_def)
  then have "total_microseconds now
      < total_microseconds (now\<lparr>day_ordinal := day_ordinal now + 1, hour := 0, minute := 0, second := 0\<rparr>)"
    by (simp add: total_microseconds_def)
  then show ?thesis
    using assms(2)
    by (auto simp: snooze_until_tomorrow_def add_one_day_def dt_less_def split: if_splits)
qed

section \<open>Throttling\<close>

text \<open>
  C4, as stated, fails: with a reminder frequency of zero, the sweep step delivers to
  user1 at \<open>t0\<close> and records it, and a check made at that same instant answers true
  again.
\<close>

theorem due_right_after_delivery:
  "deliver every_sweep ''user1''
   \<and> lookup_state (user_states (remind_user (\<lambda>n. t0) every_sweep ''user1'' init_system))
       ''user1'' ''1'' = Some reminded1
   \<and> should_receive_reminder (\<lambda>n. t0) 0 reminded1 every_sweep = (True, reminded1, 1)"
  by (simp add: every_sweep_def alert1_def deliver_def remind_user_def init_system_def
      get_state_def new_state_def should_receive_reminder_def reminder_due_def Let_def
      update_state_def store_at_def lookup_state_def reminded1_def dt_sub_def)

text \<open>
  C4, amended. On a state that is neither snoozed nor read the check leaves the state
  as it is and answers true when last-reminder-sent is unset, and otherwise exactly when
  the reading of the clock minus last-reminder-sent is at least the alert's reminder
  frequency; when that frequency is positive, the answer is false at the instant
  last-reminder-sent was set to.
\<close>

theorem throttle_gate:
  "status s \<noteq> SNOOZED \<Longrightarrow> status s \<noteq> READ \<Longrightarrow>
   fst (should_receive_reminder clk t s a) =
     (case last_reminder_sent s of
        None \<Rightarrow> True
      | Some l \<Rightarrow> reminder_frequency a \<le> dt_sub (clk t) l)
   \<and> fst (snd (should_receive_reminder clk t s a)) = s
   \<and> (0 < reminder_frequency a \<longrightarrow>
        \<not> fst (should_receive_reminder clk t (s\<lparr>last_reminder_sent := Some (clk t)\<rparr>) a))"
  by (simp add: should_receive_reminder_def reminder_due_def dt_sub_def split: option.splits)

text \<open>
  C4, amended, at concrete inputs: reminded at \<open>t0\<close> and checked at \<open>t1\<close>, more than
  two hours later, is due; reminded at \<open>t1\<close> and checked at \<open>t1\<close> is not; never reminded
  is due.
\<close>

theorem throttle_gate_witness:
  "status reminded1 \<noteq> SNOOZED \<and> status reminded1 \<noteq> READ
   \<and> 0 < reminder_frequency alert1
   \<and> fst (should_receive_reminder (\<lambda>n. t1) 0 reminded1 alert1)
   \<and> \<not> fst (should_receive_reminder (\<lambda>n. t1) 0 (reminded1\<lparr>last_reminder_sent := Some t1\<rparr>) alert1)
   \<and> fst (should_receive_reminder (\<lambda>n. t1) 0 (new_state ''user1'' ''1'') alert1)"
  using throttle_gate [of reminded1 "\<lambda>n. t1" 0 alert1]
    throttle_gate [of "new_state ''user1'' ''1''" "\<lambda>n. t1" 0 alert1]
  by (simp add: reminded1_def new_state_def alert1_def hours_def dt_sub_def
      total_microseconds_def t0_def t1_def)

section \<open>Read and snooze\<close>

text \<open>
  C1, as stated, fails: a snooze after mark-read sets the status to snoozed, and the
  check made the next morning moves the state to unread and answers true.
\<close>

theorem snooze_reopens_read:
  "snooze_until_tomorrow t0 (mark_read t0 (new_state ''user1'' ''1'')) = Inr read_then_snoozed
   \<and> status read_then_snoozed = SNOOZED
   \<and> should_receive_reminder (\<lambda>n. t1) 0 read_then_snoozed alert1
       = (True, read_then_snoozed\<lparr>status := UNREAD, snoozed_until := None\<rparr>, 1)"
  by (simp add: snooze_until_tomorrow_def add_one_day_def mark_read_def new_state_def
      read_then_snoozed_def snoozed1_def t0_def t1_def should_receive_reminder_def
      reminder_due_def dt_less_def total_microseconds_def)

text \<open>
  C1, amended. After mark-read the status is read. On a read state a further mark-read
  leaves the status read, and the eligibility check answers false, leaves the state
  unchanged and does not read the clock. A snooze on a read state is not a no-op: it
  sets the status to snoozed.
\<close>

theorem read_sticky_until_snooze:
  "status (mark_read now s) = READ
   \<and> (status s = READ \<longrightarrow>
        status (mark_read now' s) = READ \<and> should_receive_reminder clk t s a = (False, s, t))
   \<and> (status s = READ \<and> day_ordinal now' < 3652059 \<longrightarrow>
        (\<exists>s'. snooze_until_tomorrow now' s = Inr s' \<and> status s' = SNOOZED))"
  by (simp add: mark_read_def should_receive_reminder_def reminder_due_def
      snooze_until_tomorrow_def add_one_day_def)

text \<open>
  C1, amended, at concrete inputs: the state of user1 marked read at \<open>t0\<close>.
\<close>

theorem read_sticky_until_snooze_witness:
  "status (mark_read t0 (new_state ''user1'' ''1'')) = READ
   \<and> status (mark_read t1 (mark_read t0 (new_state ''user1'' ''1''))) = READ
   \<and> should_receive_reminder (\<lambda>n. t1) 4 (mark_read t0 (new_state ''user1'' ''1'')) alert1
        = (False, mark_read t0 (new_state ''user1'' ''1''), 4)
   \<and> day_ordinal t1 < 3652059
   \<and> (\<exists>s'. snooze_until_tomorrow t1 (mark_read t0 (new_state ''user1'' ''1'')) = Inr s'
          \<and> status s' = SNOOZED)"
  using read_sticky_until_snooze
    [of t0 "mark_read t0 (new_state ''user1'' ''1'')" t1 "\<lambda>n. t1" 4 alert1]
    read_sticky_until_snooze [of t0 "new_state ''user1'' ''1''" t1 "\<lambda>n. t1" 4 alert1]
  by (simp add: t1_def)

text \<open>
  C2. The state snoozed at \<open>t0\<close> and then marked read at \<open>t1\<close> has status read
  and snoozed-until still set: \<^verbatim>\<open>mark_read\<close> does not clear the field, which the
  snooze expiry inside \<^verbatim>\<open>should_receive_reminder\<close> does when it leaves the snoozed
  status.
\<close>

theorem mark_read_keeps_snoozed_until:
  "snooze_until_tomorrow t0 (new_state ''user1'' ''1'') = Inr snoozed1
   \<and> status (mark_read t1 snoozed1) = READ
   \<and> snoozed_until (mark_read t1 snoozed1)
       = Some \<lparr>day_ordinal = 738887, hour = 0, minute = 0, second = 0, microsecond = 123456\<rparr>"
  by (simp add: snooze_until_tomorrow_def add_one_day_def new_state_def snoozed1_def t0_def
      mark_read_def)

text \<open>Creation, snooze, the eligibility check and the recording of a delivery keep
  snoozed-until set exactly on snoozed states.\<close>

lemma snooze_invariant_elsewhere:
  "(snoozed_until (new_state u a) \<noteq> None) = (status (new_state u a) = SNOOZED)"
  "snooze_until_tomorrow now s = Inr s' \<Longrightarrow> (snoozed_until s' \<noteq> None) = (status s' = SNOOZED)"
  "(snoozed_until s \<noteq> None) = (status s = SNOOZED) \<Longrightarrow>
     (snoozed_until (fst (snd (should_receive_reminder clk t s al))) \<noteq> None)
       = (status (fst (snd (should_receive_reminder clk t s al))) = SNOOZED)"
  "(snoozed_until (s\<lparr>last_reminder_sent := Some now\<rparr>) \<noteq> None)
     = (status (s\<lparr>last_reminder_sent := Some now\<rparr>) = SNOOZED)
     \<longleftrightarrow> (snoozed_until s \<noteq> None) = (status s = SNOOZED)"
     apply (simp add: new_state_def)
    apply (auto simp: snooze_until_tomorrow_def add_one_day_def split: if_splits)[1]
   apply (auto simp: should_receive_reminder_def reminder_due_def split: option.splits if_splits)[1]
  apply simp
  done

section \<open>The sweep\<close>

lemma should_receive_reminder_ids:
  "user_id (fst (snd (should_receive_reminder clk t s a))) = user_id s
   \<and> alert_id (fst (snd (should_receive_reminder clk t s a))) = alert_id s"
  by (simp add: should_receive_reminder_def reminder_due_def split: option.splits)

lemma get_state_ids:
  "store_wf us \<Longrightarrow> user_id (fst (get_state us u a)) = u \<and> alert_id (fst (get_state us u a)) = a"
  by (auto simp: fst_get_state store_wf_def new_state_def split: option.splits)

lemma store_wf_store_at:
  "store_wf us \<Longrightarrow> user_id s = u \<Longrightarrow> alert_id s = a \<Longrightarrow> store_wf (store_at us u a s)"
  by (simp add: store_wf_def lookup_store_at)

lemma store_wf_get_state:
  "store_wf us \<Longrightarrow> store_wf (snd (get_state us u a))"
  using get_state_ids [of us u a]
  by (simp add: store_wf_def lookup_get_state)

text \<open>The store after one pass of the loop body, read through \<open>lookup_state\<close>.\<close>

lemma remind_user_store:
  assumes wf: "store_wf (user_states sys)"
  shows "user_states (remind_user clk a uid sys) =
     (let r = should_receive_reminder clk (clock_reads sys)
                (fst (get_state (user_states sys) uid (id_alert a))) a;
          us1 = snd (get_state (user_states sys) uid (id_alert a))
      in store_at us1 uid (id_alert a)
           (if fst r \<and> deliver a uid
            then (fst (snd r))\<lparr>last_reminder_sent := Some (clk (snd (snd r)))\<rparr>
            else fst (snd r)))"
proof -
  obtain st us1 where g: "get_state (user_states sys) uid (id_alert a) = (st, us1)"
    by (cases "get_state (user_states sys) uid (id_alert a)")
  obtain due st' t where r: "should_receive_reminder clk (clock_reads sys) st a = (due, st', t)"
    by (cases "should_receive_reminder clk (clock_reads sys) st a")
  have ids: "user_id st' = uid \<and> alert_id st' = id_alert a"
    using get_state_ids [OF wf, of uid "id_alert a"] should_receive_reminder_ids [of clk "clock_reads sys" st a]
    by (simp add: g r)
  have twice: "\<And>us x y. store_at (store_at us uid (id_alert a) x) uid (id_alert a) y
                 = store_at us uid (id_alert a) y"
    by (simp add: store_at_def)
  show ?thesis
    by (simp add: remind_user_def g r Let_def update_state_def ids twice)
qed

lemma remind_user_wf:
  assumes wf: "store_wf (user_states sys)"
  shows "store_wf (user_states (remind_user clk a uid sys))"
proof -
  have ids: "user_id (fst (snd (should_receive_reminder clk (clock_reads sys)
                (fst (get_state (user_states sys) uid (id_alert a))) a))) = uid
      \<and> alert_id (fst (snd (should_receive_reminder clk (clock_reads sys)
                (fst (get_state (user_states sys) uid (id_alert a))) a))) = id_alert a"
    using get_state_ids [OF wf, of uid "id_alert a"] should_receive_reminder_ids
    by simp
  show ?thesis
    unfolding remind_user_store [OF wf] Let_def
    by (rule store_wf_store_at) (simp_all add: store_wf_get_state wf ids)
qed

lemma remind_user_other:
  assumes wf: "store_wf (user_states sys)" and other: "aid \<noteq> id_alert a"
  shows "lookup_state (user_states (remind_user clk a uid sys)) u aid
           = lookup_state (user_states sys) u aid"
  using other
  by (simp add: remind_user_store [OF wf] Let_def lookup_store_at lookup_get_state)

lemma remind_user_calls:
  "aid \<noteq> id_alert a \<Longrightarrow>
   filter (\<lambda>c. fst c = aid) (deliver_calls (remind_user clk a uid sys))
     = filter (\<lambda>c. fst c = aid) (deliver_calls sys)"
  by (simp add: remind_user_def Let_def split: prod.splits)

lemma remind_users_skip:
  "store_wf (user_states sys) \<Longrightarrow> aid \<noteq> id_alert a \<Longrightarrow>
   store_wf (user_states (remind_users clk a uids sys))
   \<and> (\<forall>u. lookup_state (user_states (remind_users clk a uids sys)) u aid
            = lookup_state (user_states sys) u aid)
   \<and> filter (\<lambda>c. fst c = aid) (deliver_calls (remind_users clk a uids sys))
       = filter (\<lambda>c. fst c = aid) (deliver_calls sys)"
proof (induction uids arbitrary: sys)
  case Nil
  then show ?case by simp
next
  case (Cons uid uids)
  have wf': "store_wf (user_states (remind_user clk a uid sys))"
    using Cons.prems(1) by (rule remind_user_wf)
  show ?case
    using Cons.IH [OF wf' Cons.prems(2)] Cons.prems
    by (simp add: remind_user_other remind_user_calls)
qed

lemma remind_users_wf:
  "store_wf (user_states sys) \<Longrightarrow> store_wf (user_states (remind_users clk a uids sys))"
  by (induction uids arbitrary: sys) (simp_all add: remind_user_wf)

lemma remind_alerts_skip:
  "store_wf (user_states sys) \<Longrightarrow>
   \<forall>a\<in>set as. id_alert a = aid \<longrightarrow> \<not> reminders_enabled a \<Longrightarrow>
   (\<forall>u. lookup_state (user_states (remind_alerts iter clk as sys)) u aid
            = lookup_state (user_states sys) u aid)
   \<and> filter (\<lambda>c. fst c = aid) (deliver_calls (remind_alerts iter clk as sys))
       = filter (\<lambda>c. fst c = aid) (deliver_calls sys)"
proof (induction as arbitrary: sys)
  case Nil
  then show ?case by simp
next
  case (Cons a as)
  let ?sys' = "if \<not> reminders_enabled a then sys
        else remind_users clk a
               (iter (get_target_users iter (user_repository sys) (visibility_config a))) sys"
  have wf': "store_wf (user_states ?sys')"
    using Cons.prems(1) by (simp add: remind_users_wf)
  have rest: "\<forall>a\<in>set as. id_alert a = aid \<longrightarrow> \<not> reminders_enabled a"
    using Cons.prems(2) by simp
  have step: "(\<forall>u. lookup_state (user_states ?sys') u aid = lookup_state (user_states sys) u aid)
     \<and> filter (\<lambda>c. fst c = aid) (deliver_calls ?sys') = filter (\<lambda>c. fst c = aid) (deliver_calls sys)"
  proof (cases "reminders_enabled a")
    case False
    then show ?thesis by simp
  next
    case True
    then have "aid \<noteq> id_alert a" using Cons.prems(2) by auto
    then show ?thesis
      using remind_users_skip [OF Cons.prems(1), of aid a clk] True by simp
  qed
  show ?case
    using Cons.IH [OF wf' rest] step by simp
qed

lemma get_active_alerts_sound:
  "a \<in> set (fst (get_active_alerts clk t as)) \<Longrightarrow>
   \<exists>i<length as. as ! i = a \<and> is_active (clk (t + i)) a"
proof (induction as arbitrary: t)
  case Nil
  then show ?case by simp
next
  case (Cons b bs)
  show ?case
  proof (cases "a \<in> set (fst (get_active_alerts clk (Suc t) bs))")
    case True
    then obtain i where "i < length bs" "bs ! i = a" "is_active (clk (Suc t + i)) a"
      using Cons.IH by blast
    then have "Suc i < length (b # bs) \<and> (b # bs) ! Suc i = a \<and> is_active (clk (t + Suc i)) a"
      by simp
    then show ?thesis by blast
  next
    case False
    then have "a = b \<and> is_active (clk t) b"
      using Cons.prems by (auto split: prod.splits if_splits)
    then have "0 < length (b # bs) \<and> (b # bs) ! 0 = a \<and> is_active (clk (t + 0)) a"
      by simp
    then show ?thesis by blast
  qed
qed

lemma is_active_iff:
  "is_active now a =
     (status_alert a = ACTIVE \<and> \<not> dt_less now (start_time a)
      \<and> (\<forall>e. expiry_time a = Some e \<longrightarrow> \<not> dt_less e now))"
  by (simp add: is_active_def split: option.splits)

text \<open>
  C5. An alert whose status is not active, or that has not started, or whose expiry
  has passed, is not active. Let every alert of the registry with id \<open>aid\<close> be such an
  alert at the reading of the clock its \<^verbatim>\<open>is_active\<close> call makes, or have reminders
  disabled. Then a sweep makes no \<^verbatim>\<open>deliver\<close> call for \<open>aid\<close> and leaves the record of
  every user for \<open>aid\<close> as it was, absent records staying absent.
\<close>

theorem not_live_alerts_are_skipped:
  assumes wf: "store_wf (user_states sys)"
    and skip: "\<forall>i<length (alerts sys).
        id_alert (snd (alerts sys ! i)) = aid \<longrightarrow>
          status_alert (snd (alerts sys ! i)) \<noteq> ACTIVE
          \<or> dt_less (clk (clock_reads sys + i)) (start_time (snd (alerts sys ! i)))
          \<or> (\<exists>e. expiry_time (snd (alerts sys ! i)) = Some e \<and> dt_less e (clk (clock_reads sys + i)))
          \<or> \<not> reminders_enabled (snd (alerts sys ! i))"
  shows "(\<forall>a now. status_alert a \<noteq> ACTIVE \<or> dt_less now (start_time a)
               \<or> (\<exists>e. expiry_time a = Some e \<and> dt_less e now) \<longrightarrow> \<not> is_active now a)
     \<and> (\<forall>u. lookup_state (user_states (process_reminders iter clk sys)) u aid
              = lookup_state (user_states sys) u aid)
     \<and> filter (\<lambda>c. fst c = aid) (deliver_calls (process_reminders iter clk sys))
         = filter (\<lambda>c. fst c = aid) (deliver_calls sys)"
proof -
  obtain act t where g: "get_active_alerts clk (clock_reads sys) (map snd (alerts sys)) = (act, t)"
    by (cases "get_active_alerts clk (clock_reads sys) (map snd (alerts sys))")
  have off: "\<forall>a\<in>set act. id_alert a = aid \<longrightarrow> \<not> reminders_enabled a"
  proof (intro ballI impI)
    fix a assume a: "a \<in> set act" and same: "id_alert a = aid"
    from a g obtain i where i: "i < length (alerts sys)" "snd (alerts sys ! i) = a"
        "is_active (clk (clock_reads sys + i)) a"
      using get_active_alerts_sound [of a clk "clock_reads sys" "map snd (alerts sys)"] by auto
    from skip i same show "\<not> reminders_enabled a"
      by (auto simp: is_active_iff)
  qed
  have "(\<forall>u. lookup_state (user_states (remind_alerts iter clk act (sys\<lparr>clock_reads := t\<rparr>))) u aid
            = lookup_state (user_states (sys\<lparr>clock_reads := t\<rparr>)) u aid)
     \<and> filter (\<lambda>c. fst c = aid) (deliver_calls (remind_alerts iter clk act (sys\<lparr>clock_reads := t\<rparr>)))
         = filter (\<lambda>c. fst c = aid) (deliver_calls (sys\<lparr>clock_reads := t\<rparr>))"
    by (rule remind_alerts_skip) (simp_all add: wf off)
  then show ?thesis
    by (simp add: process_reminders_def g is_active_iff)
qed

text \<open>
  C5, at a concrete input: a sweep over the live alert 1 and the archived alert 2
  delivers alert 1 to the three users and does nothing for alert 2.
\<close>

theorem not_live_alerts_are_skipped_witness:
  "store_wf (user_states two_alerts)
   \<and> status_alert archived2 \<noteq> ACTIVE
   \<and> \<not> is_active t1 archived2
   \<and> lookup_state (user_states (process_reminders (listed [''user1'', ''user2'', ''user3''])
        (\<lambda>n. t1) two_alerts)) ''user1'' ''2'' = None
   \<and> filter (\<lambda>c. fst c = ''2'') (deliver_calls (process_reminders
        (listed [''user1'', ''user2'', ''user3'']) (\<lambda>n. t1) two_alerts)) = []
   \<and> deliver_calls (process_reminders (listed [''user1'', ''user2'', ''user3''])
        (\<lambda>n. t1) two_alerts) = [(''1'', ''user1''), (''1'', ''user2''), (''1'', ''user3'')]"
proof -
  have live: "deliver_calls (process_reminders (listed [''user1'', ''user2'', ''user3''])
        (\<lambda>n. t1) two_alerts) = [(''1'', ''user1''), (''1'', ''user2''), (''1'', ''user3'')]"
    by (simp add: process_reminders_def two_alerts_def init_system_def archived2_def alert1_def
        is_active_def dt_less_def total_microseconds_def t0_def t1_def get_all_user_ids_def
        init_user_repository_def listed_def remind_user_def get_state_def new_state_def
        should_receive_reminder_def reminder_due_def deliver_def Let_def update_state_def
        store_at_def)
  have wf: "store_wf (user_states two_alerts)"
    by (simp add: two_alerts_def init_system_def store_wf_def lookup_state_def)
  have skip: "\<forall>i<length (alerts two_alerts).
        id_alert (snd (alerts two_alerts ! i)) = ''2'' \<longrightarrow>
          status_alert (snd (alerts two_alerts ! i)) \<noteq> ACTIVE
          \<or> dt_less ((\<lambda>n. t1) (clock_reads two_alerts + i)) (start_time (snd (alerts two_alerts ! i)))
          \<or> (\<exists>e. expiry_time (snd (alerts two_alerts ! i)) = Some e
                \<and> dt_less e ((\<lambda>n. t1) (clock_reads two_alerts + i)))
          \<or> \<not> reminders_enabled (snd (alerts two_alerts ! i))"
    by (simp add: two_alerts_def init_system_def archived2_def alert1_def nth_Cons' less_Suc_eq)
  show ?thesis
    using not_live_alerts_are_skipped [OF wf skip, of "listed [''user1'', ''user2'', ''user3'']"] wf
    by (simp add: live) (simp add: archived2_def two_alerts_def init_system_def lookup_state_def)
qed

lemma due_shape:
  assumes r: "should_receive_reminder clk n st a = (True, st', t)"
  shows "status st' \<noteq> READ \<and> status st' \<noteq> SNOOZED
     \<and> (last_reminder_sent st' = None
        \<or> (\<exists>l. last_reminder_sent st' = Some l
              \<and> (t = Suc n \<and> reminder_frequency a \<le> dt_sub (clk n) l
                 \<or> t = Suc (Suc n) \<and> reminder_frequency a \<le> dt_sub (clk (Suc n)) l)))"
proof (cases "status st = SNOOZED")
  case True
  with r show ?thesis
    by (cases "snoozed_until st"; cases "last_reminder_sent st")
       (auto simp: should_receive_reminder_def reminder_due_def split: if_splits)
next
  case False
  with r show ?thesis
    by (cases "last_reminder_sent st")
       (auto simp: should_receive_reminder_def reminder_due_def split: if_splits)
qed

lemma still_due:
  assumes r: "should_receive_reminder clk n st a = (True, st', t)"
    and later: "t \<le> t2"
    and mono: "\<forall>i\<le>t2. total_microseconds (clk i) \<le> total_microseconds (clk t2)"
  shows "fst (should_receive_reminder clk t2 st' a)
     \<and> fst (snd (should_receive_reminder clk t2 st' a)) = st'"
proof (cases "last_reminder_sent st'")
  case None
  with due_shape [OF r] show ?thesis
    by (simp add: should_receive_reminder_def reminder_due_def)
next
  case (Some l)
  with due_shape [OF r] consider
      "t = Suc n" "reminder_frequency a \<le> dt_sub (clk n) l"
    | "t = Suc (Suc n)" "reminder_frequency a \<le> dt_sub (clk (Suc n)) l"
    by auto
  then have "reminder_frequency a \<le> dt_sub (clk t2) l"
  proof cases
    case 1
    with later have "n \<le> t2" by simp
    with mono have "total_microseconds (clk n) \<le> total_microseconds (clk t2)" by blast
    with 1 show ?thesis by (simp add: dt_sub_def)
  next
    case 2
    with later have "Suc n \<le> t2" by simp
    with mono have "total_microseconds (clk (Suc n)) \<le> total_microseconds (clk t2)" by blast
    with 2 show ?thesis by (simp add: dt_sub_def)
  qed
  with Some due_shape [OF r] show ?thesis
    by (simp add: should_receive_reminder_def reminder_due_def)
qed

lemma due_keeps_last:
  "last_reminder_sent (fst (snd (should_receive_reminder clk t s a))) = last_reminder_sent s"
  by (simp add: should_receive_reminder_def reminder_due_def split: option.splits)

lemma store_at_same:
  assumes "lookup_state us u a = Some s"
  shows "store_at us u a s = us"
proof -
  from assms obtain d where d: "us u = Some d" "d a = Some s"
    by (auto simp: lookup_state_def split: option.splits)
  have "d(a \<mapsto> s) = d" using d(2) by (rule map_upd_triv)
  moreover have "us(u \<mapsto> d) = us" using d(1) by (rule map_upd_triv)
  ultimately show ?thesis by (simp add: store_at_def d(1))
qed

lemma unsnoozed_check_keeps:
  "status s \<noteq> SNOOZED \<Longrightarrow> fst (snd (should_receive_reminder clk t s a)) = s"
  by (simp add: should_receive_reminder_def reminder_due_def split: option.splits)

lemma remind_user_success:
  assumes g: "get_state (user_states sys) uid (id_alert a) = (st, us1)"
    and r: "should_receive_reminder clk (clock_reads sys) st a = (True, st', t)"
    and d: "deliver a uid"
  shows "remind_user clk a uid sys =
     sys\<lparr>user_states :=
           update_state (store_at (store_at us1 uid (id_alert a) st') uid (id_alert a)
                           (st'\<lparr>last_reminder_sent := Some (clk t)\<rparr>))
             (st'\<lparr>last_reminder_sent := Some (clk t)\<rparr>),
         clock_reads := Suc t,
         deliver_calls := deliver_calls sys @ [(id_alert a, uid)]\<rparr>"
  by (simp add: remind_user_def g r d Let_def)

lemma remind_user_failure:
  assumes g: "get_state (user_states sys) uid (id_alert a) = (st, us1)"
    and r: "should_receive_reminder clk (clock_reads sys) st a = (True, st', t)"
    and d: "\<not> deliver a uid"
  shows "remind_user clk a uid sys =
     sys\<lparr>user_states := store_at us1 uid (id_alert a) st', clock_reads := t,
         deliver_calls := deliver_calls sys @ [(id_alert a, uid)]\<rparr>"
  by (simp add: remind_user_def g r d Let_def)

lemma remind_user_not_due:
  assumes g: "get_state (user_states sys) uid (id_alert a) = (st, us1)"
    and r: "should_receive_reminder clk (clock_reads sys) st a = (False, st', t)"
  shows "remind_user clk a uid sys =
     sys\<lparr>user_states := store_at us1 uid (id_alert a) st', clock_reads := t\<rparr>"
  by (simp add: remind_user_def g r)

lemma expired_snooze_shape:
  assumes r: "should_receive_reminder clk n st a = (True, st', t)"
    and snoozed: "status st = SNOOZED"
  shows "st' = st\<lparr>status := UNREAD, snoozed_until := None\<rparr>"
  using r snoozed
  by (cases "snoozed_until st"; cases "last_reminder_sent st")
     (auto simp: should_receive_reminder_def reminder_due_def split: if_splits)

text \<open>
  C6, as stated, fails in two ways. The record of user1, snoozed at \<open>t0\<close>, is checked
  at \<open>t1\<close> for an alert whose delivery fails: the \<^verbatim>\<open>deliver\<close> call is made and the
  stored record is then unread with snoozed-until cleared, not the record held before.
  And the record reminded at \<open>t0\<close> is due at \<open>t1\<close>, the delivery fails, the record is
  left as it was, and the next check, on a clock set back to \<open>t0\<close>, answers false.
\<close>

theorem failed_delivery_after_expired_snooze:
  "\<not> deliver sms1 ''user1''
   \<and> lookup_state (user_states snoozed_system) ''user1'' ''1'' = Some snoozed1
   \<and> deliver_calls (remind_user (\<lambda>n. t1) sms1 ''user1'' snoozed_system) = [(''1'', ''user1'')]
   \<and> lookup_state (user_states (remind_user (\<lambda>n. t1) sms1 ''user1'' snoozed_system))
        ''user1'' ''1'' = Some (new_state ''user1'' ''1'')
   \<and> new_state ''user1'' ''1'' \<noteq> snoozed1
   \<and> deliver_calls (remind_user clock_set_back sms1 ''user1'' reminded_system)
        = [(''1'', ''user1'')]
   \<and> lookup_state (user_states (remind_user clock_set_back sms1 ''user1'' reminded_system))
        ''user1'' ''1'' = Some reminded1
   \<and> clock_reads (remind_user clock_set_back sms1 ''user1'' reminded_system) = 1
   \<and> \<not> fst (should_receive_reminder clock_set_back 1 reminded1 sms1)"
proof -
  have d: "\<not> deliver sms1 ''user1''"
    by (simp add: deliver_def sms1_def)
  have ida: "id_alert sms1 = ''1''"
    by (simp add: sms1_def alert1_def)
  have held: "lookup_state (user_states snoozed_system) ''user1'' ''1'' = Some snoozed1"
    by (simp add: snoozed_system_def lookup_store_at)
  have g: "get_state (user_states snoozed_system) ''user1'' (id_alert sms1)
             = (snoozed1, user_states snoozed_system)"
    using get_state_present [OF held] by (simp add: ida)
  have r: "should_receive_reminder (\<lambda>n. t1) (clock_reads snoozed_system) snoozed1 sms1
             = (True, new_state ''user1'' ''1'', 1)"
    by (simp add: should_receive_reminder_def reminder_due_def snoozed1_def new_state_def
        snoozed_system_def init_system_def dt_less_def total_microseconds_def t1_def)
  have step: "remind_user (\<lambda>n. t1) sms1 ''user1'' snoozed_system =
      snoozed_system\<lparr>user_states := store_at (user_states snoozed_system) ''user1'' (id_alert sms1)
                                       (new_state ''user1'' ''1''),
                     clock_reads := 1,
                     deliver_calls := deliver_calls snoozed_system @ [(id_alert sms1, ''user1'')]\<rparr>"
    by (rule remind_user_failure [OF g r d])
  have held': "lookup_state (user_states reminded_system) ''user1'' ''1'' = Some reminded1"
    by (simp add: reminded_system_def lookup_store_at)
  have g': "get_state (user_states reminded_system) ''user1'' (id_alert sms1)
             = (reminded1, user_states reminded_system)"
    using get_state_present [OF held'] by (simp add: ida)
  have r': "should_receive_reminder clock_set_back (clock_reads reminded_system) reminded1 sms1
             = (True, reminded1, 1)"
    by (simp add: should_receive_reminder_def reminder_due_def reminded1_def new_state_def
        reminded_system_def init_system_def clock_set_back_def sms1_def alert1_def hours_def
        dt_sub_def total_microseconds_def t0_def t1_def)
  have step': "remind_user clock_set_back sms1 ''user1'' reminded_system =
      reminded_system\<lparr>user_states := store_at (user_states reminded_system) ''user1''
                                        (id_alert sms1) reminded1,
                      clock_reads := 1,
                      deliver_calls := deliver_calls reminded_system @ [(id_alert sms1, ''user1'')]\<rparr>"
    by (rule remind_user_failure [OF g' r' d])
  have earlier: "\<not> fst (should_receive_reminder clock_set_back 1 reminded1 sms1)"
    by (simp add: should_receive_reminder_def reminder_due_def reminded1_def new_state_def
        clock_set_back_def sms1_def alert1_def hours_def dt_sub_def)
  have differ: "new_state ''user1'' ''1'' \<noteq> snoozed1"
    by (simp add: new_state_def snoozed1_def)
  have calls: "deliver_calls snoozed_system = []" "deliver_calls reminded_system = []"
    by (simp_all add: snoozed_system_def reminded_system_def init_system_def)
  show ?thesis
    using d held differ earlier
    by (simp add: step step' lookup_store_at ida calls)
qed

text \<open>
  C6, amended. In the loop body for one recipient, with \<open>st\<close> the record
  \<^verbatim>\<open>get_state\<close> returns and \<open>st'\<close> that record as the eligibility check leaves it:
  when the recipient is due and the delivery succeeds, the stored record is \<open>st'\<close> with
  last-reminder-sent set to the next reading of the clock. In every other case, a failed
  delivery among them, the stored record is \<open>st'\<close> and its last-reminder-sent is the one
  of \<open>st\<close>; a record that was held and not snoozed leaves the whole store unchanged,
  while a snoozed record that was due is stored as unread with snoozed-until cleared.
  After a failed delivery every later check whose reading of the clock is not before
  any earlier reading answers true again and keeps the record.
\<close>

theorem delivery_outcome:
  assumes g: "get_state (user_states sys) uid (id_alert a) = (st, us1)"
    and r: "should_receive_reminder clk (clock_reads sys) st a = (due, st', t)"
  shows "(due \<and> deliver a uid \<longrightarrow>
            lookup_state (user_states (remind_user clk a uid sys)) uid (id_alert a)
              = Some (st'\<lparr>last_reminder_sent := Some (clk t)\<rparr>)
            \<and> clock_reads (remind_user clk a uid sys) = Suc t)
     \<and> (\<not> (due \<and> deliver a uid) \<longrightarrow>
            user_states (remind_user clk a uid sys) = store_at us1 uid (id_alert a) st'
            \<and> lookup_state (user_states (remind_user clk a uid sys)) uid (id_alert a) = Some st'
            \<and> last_reminder_sent st' = last_reminder_sent st
            \<and> clock_reads (remind_user clk a uid sys) = t
            \<and> (lookup_state (user_states sys) uid (id_alert a) = Some st \<and> status st \<noteq> SNOOZED
                 \<longrightarrow> user_states (remind_user clk a uid sys) = user_states sys))
     \<and> (due \<and> status st = SNOOZED \<longrightarrow> st' = st\<lparr>status := UNREAD, snoozed_until := None\<rparr>)
     \<and> (due \<and> \<not> deliver a uid \<longrightarrow>
            (\<forall>t2\<ge>t. (\<forall>i\<le>t2. total_microseconds (clk i) \<le> total_microseconds (clk t2)) \<longrightarrow>
               fst (should_receive_reminder clk t2 st' a)
               \<and> fst (snd (should_receive_reminder clk t2 st' a)) = st'))"
proof (intro conjI impI)
  assume ok: "due \<and> deliver a uid"
  then have r': "should_receive_reminder clk (clock_reads sys) st a = (True, st', t)"
    using r by simp
  show "lookup_state (user_states (remind_user clk a uid sys)) uid (id_alert a)
          = Some (st'\<lparr>last_reminder_sent := Some (clk t)\<rparr>)"
    using ok by (simp add: remind_user_success [OF g r'] update_state_def lookup_store_at)
  show "clock_reads (remind_user clk a uid sys) = Suc t"
    using ok by (simp add: remind_user_success [OF g r'])
next
  assume no: "\<not> (due \<and> deliver a uid)"
  show store: "user_states (remind_user clk a uid sys) = store_at us1 uid (id_alert a) st'"
  proof (cases due)
    case True
    with no r show ?thesis by (simp add: remind_user_failure [OF g])
  next
    case False
    with r show ?thesis by (simp add: remind_user_not_due [OF g])
  qed
  show "lookup_state (user_states (remind_user clk a uid sys)) uid (id_alert a) = Some st'"
    by (simp add: store lookup_store_at)
  show "last_reminder_sent st' = last_reminder_sent st"
    using due_keeps_last [of clk "clock_reads sys" st a] by (simp add: r)
  show "clock_reads (remind_user clk a uid sys) = t"
  proof (cases due)
    case True
    with no r show ?thesis by (simp add: remind_user_failure [OF g])
  next
    case False
    with r show ?thesis by (simp add: remind_user_not_due [OF g])
  qed
  assume held: "lookup_state (user_states sys) uid (id_alert a) = Some st \<and> status st \<noteq> SNOOZED"
  have "us1 = user_states sys"
    using get_state_present [of "user_states sys" uid "id_alert a" st] held g by simp
  moreover have "st' = st"
    using unsnoozed_check_keeps [of st clk "clock_reads sys" a] held r by simp
  ultimately show "user_states (remind_user clk a uid sys) = user_states sys"
    using held by (simp add: store store_at_same)
next
  assume expired: "due \<and> status st = SNOOZED"
  then have r': "should_receive_reminder clk (clock_reads sys) st a = (True, st', t)"
    using r by simp
  show "st' = st\<lparr>status := UNREAD, snoozed_until := None\<rparr>"
    using expired by (simp add: expired_snooze_shape [OF r'])
next
  assume fail: "due \<and> \<not> deliver a uid"
  then have r': "should_receive_reminder clk (clock_reads sys) st a = (True, st', t)"
    using r by simp
  show "\<forall>t2\<ge>t. (\<forall>i\<le>t2. total_microseconds (clk i) \<le> total_microseconds (clk t2)) \<longrightarrow>
               fst (should_receive_reminder clk t2 st' a)
               \<and> fst (snd (should_receive_reminder clk t2 st' a)) = st'"
    using still_due [OF r'] by blast
qed

text \<open>
  C6, amended, at concrete inputs: user1, reminded at \<open>t0\<close>, is due at \<open>t1\<close>. For the SMS
  alert the delivery fails, the record stays and is due at a later check; for the in-app
  alert the delivery succeeds and last-reminder-sent becomes \<open>t1\<close>. User1, snoozed at
  \<open>t0\<close>, is due at \<open>t1\<close>; the delivery of the SMS alert fails and the record is stored
  unread, due at a later check.
\<close>

theorem delivery_outcome_witness:
  "\<not> deliver sms1 ''user1''
   \<and> lookup_state (user_states (remind_user (\<lambda>n. t1) sms1 ''user1'' reminded_system))
        ''user1'' ''1'' = Some reminded1
   \<and> fst (should_receive_reminder (\<lambda>n. t1) 7 reminded1 sms1)
   \<and> deliver alert1 ''user1''
   \<and> lookup_state (user_states (remind_user (\<lambda>n. t1) alert1 ''user1'' reminded_system))
        ''user1'' ''1'' = Some (reminded1\<lparr>last_reminder_sent := Some t1\<rparr>)
   \<and> status snoozed1 = SNOOZED
   \<and> lookup_state (user_states (remind_user (\<lambda>n. t1) sms1 ''user1'' snoozed_system))
        ''user1'' ''1'' = Some (snoozed1\<lparr>status := UNREAD, snoozed_until := None\<rparr>)
   \<and> fst (should_receive_reminder (\<lambda>n. t1) 7
        (snoozed1\<lparr>status := UNREAD, snoozed_until := None\<rparr>) sms1)"
proof -
  have held: "lookup_state (user_states reminded_system) ''user1'' ''1'' = Some reminded1"
    by (simp add: reminded_system_def lookup_store_at)
  have ids: "id_alert sms1 = ''1''" "id_alert alert1 = ''1''"
    by (simp_all add: sms1_def alert1_def)
  have g1: "get_state (user_states reminded_system) ''user1'' (id_alert sms1)
      = (reminded1, user_states reminded_system)"
    using get_state_present [OF held] by (simp add: ids)
  have g2: "get_state (user_states reminded_system) ''user1'' (id_alert alert1)
      = (reminded1, user_states reminded_system)"
    using get_state_present [OF held] by (simp add: ids)
  have r1: "should_receive_reminder (\<lambda>n. t1) (clock_reads reminded_system) reminded1 sms1
      = (True, reminded1, 1)"
    by (simp add: should_receive_reminder_def reminder_due_def reminded1_def new_state_def
        sms1_def alert1_def hours_def dt_sub_def total_microseconds_def t0_def t1_def
        reminded_system_def init_system_def)
  have r2: "should_receive_reminder (\<lambda>n. t1) (clock_reads reminded_system) reminded1 alert1
      = (True, reminded1, 1)"
    by (simp add: should_receive_reminder_def reminder_due_def reminded1_def new_state_def
        alert1_def hours_def dt_sub_def total_microseconds_def t0_def t1_def
        reminded_system_def init_system_def)
  have d1: "\<not> deliver sms1 ''user1''" by (simp add: deliver_def sms1_def)
  have d2: "deliver alert1 ''user1''" by (simp add: deliver_def alert1_def)
  have kept: "lookup_state (user_states (remind_user (\<lambda>n. t1) sms1 ''user1'' reminded_system))
      ''user1'' (id_alert sms1) = Some reminded1"
    using delivery_outcome [OF g1 r1] d1 by blast
  have "\<forall>t2\<ge>1. (\<forall>i\<le>t2. total_microseconds ((\<lambda>n. t1) i) \<le> total_microseconds ((\<lambda>n. t1) t2)) \<longrightarrow>
      fst (should_receive_reminder (\<lambda>n. t1) t2 reminded1 sms1)"
    using delivery_outcome [OF g1 r1] d1 by blast
  then have again: "fst (should_receive_reminder (\<lambda>n. t1) 7 reminded1 sms1)"
    by simp
  have sent: "lookup_state (user_states (remind_user (\<lambda>n. t1) alert1 ''user1'' reminded_system))
      ''user1'' (id_alert alert1) = Some (reminded1\<lparr>last_reminder_sent := Some t1\<rparr>)"
    using delivery_outcome [OF g2 r2] d2 by blast
  have held3: "lookup_state (user_states snoozed_system) ''user1'' ''1'' = Some snoozed1"
    by (simp add: snoozed_system_def lookup_store_at)
  have g3: "get_state (user_states snoozed_system) ''user1'' (id_alert sms1)
      = (snoozed1, user_states snoozed_system)"
    using get_state_present [OF held3] by (simp add: ids)
  have r3: "should_receive_reminder (\<lambda>n. t1) (clock_reads snoozed_system) snoozed1 sms1
      = (True, snoozed1\<lparr>status := UNREAD, snoozed_until := None\<rparr>, 1)"
    by (simp add: should_receive_reminder_def reminder_due_def snoozed1_def
        snoozed_system_def init_system_def dt_less_def total_microseconds_def t1_def)
  have s3: "status snoozed1 = SNOOZED" by (simp add: snoozed1_def)
  have woken: "lookup_state (user_states (remind_user (\<lambda>n. t1) sms1 ''user1'' snoozed_system))
      ''user1'' (id_alert sms1) = Some (snoozed1\<lparr>status := UNREAD, snoozed_until := None\<rparr>)"
    using delivery_outcome [OF g3 r3] d1 by blast
  have "\<forall>t2\<ge>1. (\<forall>i\<le>t2. total_microseconds ((\<lambda>n. t1) i) \<le> total_microseconds ((\<lambda>n. t1) t2)) \<longrightarrow>
      fst (should_receive_reminder (\<lambda>n. t1) t2 (snoozed1\<lparr>status := UNREAD, snoozed_until := None\<rparr>) sms1)"
    using delivery_outcome [OF g3 r3] d1 by blast
  then have again3: "fst (should_receive_reminder (\<lambda>n. t1) 7
      (snoozed1\<lparr>status := UNREAD, snoozed_until := None\<rparr>) sms1)"
    by simp
  show ?thesis
    using d1 d2 kept again sent s3 woken again3 by (simp only: ids simp_thms)
qed

end
